theory Spec2Isabelle
  imports Main
begin

section \<open>Geano's GDSA Exchange Office: the money converter\<close>

text \<open>
  The module keeps a purse of four coin kinds (gold, silver, copper, nickel; ten of one
  kind are worth one of the next) in canonical form. The development follows the class
  \<open>DSAMoneyConverter\<close> and the \<open>updateActor\<close> hook of the script.

  A JavaScript number is a double. The coin counts are integers, so a number of the
  script is modelled by the integer it holds, an \<open>int\<close>, and the arithmetic of the
  script rounds as doubles do: the result of \<open>*\<close>, \<open>+\<close> and \<open>/\<close> is the exact result
  rounded to 53 significant bits, ties to the even neighbour. Integers below \<open>2 ^ 53\<close> in
  magnitude (the safe integers) are held exactly; from there on rounding shows. Only
  finite numbers are modelled: a result of magnitude \<open>2 ^ 1024\<close> or more, which the
  script would hold as \<open>Infinity\<close>, is outside the model. A field of the money object may
  be absent (\<open>undefined\<close>), so every field is an \<open>int option\<close>.
\<close>

subsection \<open>JavaScript operators used by the script\<close>

text \<open>\<open>x || 0\<close> on a number or \<open>undefined\<close>: the left operand when it is truthy, else 0.\<close>

definition or_zero :: "int option \<Rightarrow> int" where
  "or_zero x = (case x of None \<Rightarrow> 0 | Some v \<Rightarrow> if v \<noteq> 0 then v else 0)"

text \<open>The number of binary digits of a positive integer.\<close>

function bit_length :: "int \<Rightarrow> nat" where
  "bit_length k = (if k \<le> 0 then 0 else Suc (bit_length (k div 2)))"
  by pat_completeness auto
termination
  by (relation "measure nat") auto

declare bit_length.simps [simp del]

text \<open>
  The fraction \<open>p / q\<close> (with \<open>q\<close> positive) rounded to the nearest integer, a tie going
  to the even one.
\<close>

definition rhe_div :: "int \<Rightarrow> int \<Rightarrow> int" where
  "rhe_div p q =
     (let d = p div q; r = p mod q
      in if 2 * r < q then d
         else if q < 2 * r then d + 1
         else if even d then d else d + 1)"

text \<open>
  An integer rounded to the nearest double: itself when it has at most 53 binary
  digits, and otherwise the nearest multiple of the power of two that leaves 53 digits.
\<close>

definition round_int :: "int \<Rightarrow> int" where
  "round_int k =
     (if \<bar>k\<bar> < 2 ^ 53 then k
      else (let u = 2 ^ (bit_length \<bar>k\<bar> - 53) in rhe_div k u * u))"

text \<open>\<open>a * b\<close> and \<open>a + b\<close> on integer-valued numbers.\<close>

definition js_mul :: "int \<Rightarrow> int \<Rightarrow> int" where
  "js_mul a b = round_int (a * b)"

definition js_add :: "int \<Rightarrow> int \<Rightarrow> int" where
  "js_add a b = round_int (a + b)"

text \<open>
  \<open>Math.floor(a / b)\<close> for a positive divisor \<open>b\<close>. The quotient \<open>a / b\<close> is first
  rounded to a double, that is to a multiple of \<open>2 ^ (e - 52)\<close> where \<open>2 ^ e\<close> is the
  largest power of two not above its magnitude, and the rounded quotient is then floored.
  When the magnitude of the quotient is at least 1 it has \<open>l = e + 1\<close> binary digits
  before the point; the doubles near it are the multiples of \<open>1 / 2 ^ (53 - l)\<close>, or of
  \<open>2 ^ (l - 53)\<close> when \<open>l\<close> exceeds 53. When the magnitude is below 1, \<open>e\<close> is minus the
  least \<open>j\<close> with \<open>b \<le> \<bar>a\<bar> * 2 ^ j\<close>, which is the number of binary digits of
  \<open>(b - 1) div \<bar>a\<bar>\<close>.
\<close>

definition floor_div :: "int \<Rightarrow> int \<Rightarrow> int" where
  "floor_div a b =
     (if a = 0 then 0
      else if b \<le> \<bar>a\<bar> then
        (let l = bit_length (\<bar>a\<bar> div b)
         in if l \<le> 53 then (let s = 2 ^ (53 - l) in rhe_div (a * s) b div s)
            else (let u = 2 ^ (l - 53) in rhe_div a (b * u) * u))
      else (let s = 2 ^ (52 + bit_length ((b - 1) div \<bar>a\<bar>))
            in rhe_div (a * s) b div s))"

text \<open>
  \<open>a % b\<close>: the remainder of the truncating division; it has the sign of \<open>a\<close>, and on
  doubles it is exact.
\<close>

definition js_rem :: "int \<Rightarrow> int \<Rightarrow> int" where
  "js_rem a b = sgn a * (\<bar>a\<bar> mod \<bar>b\<bar>)"

subsection \<open>The money record and the conversion rates\<close>

record money =
  gold :: "int option"
  silver :: "int option"
  copper :: "int option"
  nickel :: "int option"

definition RATE_nickel :: int where "RATE_nickel = 1"
definition RATE_copper :: int where "RATE_copper = 10"
definition RATE_silver :: int where "RATE_silver = 100"
definition RATE_gold :: int where "RATE_gold = 1000"

subsection \<open>The currency normalizer\<close>

text \<open>The sum is taken from left to right, every product and every sum rounded.\<close>

definition toBaseUnit :: "money \<Rightarrow> int" where
  "toBaseUnit m =
     js_add
       (js_add
          (js_add (js_mul (or_zero (gold m)) RATE_gold)
                  (js_mul (or_zero (silver m)) RATE_silver))
          (js_mul (or_zero (copper m)) RATE_copper))
       (js_mul (or_zero (nickel m)) RATE_nickel)"

definition fromBaseUnit :: "int \<Rightarrow> money" where
  "fromBaseUnit totalNickel =
     (let remaining0 = totalNickel;
          g = floor_div remaining0 RATE_gold;
          remaining1 = js_rem remaining0 RATE_gold;
          s = floor_div remaining1 RATE_silver;
          remaining2 = js_rem remaining1 RATE_silver;
          c = floor_div remaining2 RATE_copper;
          remaining3 = js_rem remaining2 RATE_copper;
          n = remaining3
      in \<lparr>gold = Some g, silver = Some s, copper = Some c, nickel = Some n\<rparr>)"

definition optimizeMoney :: "money \<Rightarrow> money" where
  "optimizeMoney m = (let totalNickel = toBaseUnit m in fromBaseUnit totalNickel)"

definition needsOptimization :: "money \<Rightarrow> bool" where
  "needsOptimization m =
     (let cur_gold = or_zero (gold m);
          cur_silver = or_zero (silver m);
          cur_copper = or_zero (copper m);
          cur_nickel = or_zero (nickel m)
      in if cur_nickel \<ge> 10 \<or> cur_copper \<ge> 10 \<or> cur_silver \<ge> 10 then True
         else if cur_nickel < 0 \<or> cur_copper < 0 \<or> cur_silver < 0 \<or> cur_gold < 0 then True
         else False)"

text \<open>The reading of a field that the description of \<open>needsOptimization\<close> uses: an absent
  field counts as 0.\<close>

definition absent_as_zero :: "int option \<Rightarrow> int" where
  "absent_as_zero x = (case x of None \<Rightarrow> 0 | Some v \<Rightarrow> v)"

section \<open>The host and the update coalescer\<close>

text \<open>
  The script runs inside a host application. What it reads from and does to the host is
  made explicit as a \<open>world\<close>: the actor collection \<open>game.actors\<close> (keyed by actor id),
  the setting \<open>showNotifications\<close>, the id of the game system, the host's table of
  pending timeouts, and the list of the calls made to \<open>ui.notifications\<close> and to
  \<open>actor.update\<close>, in order. The only state of the script itself is the static map
  \<open>updateTimers\<close>.
\<close>

record actor =
  actor_type :: string
  actor_name :: string
  actor_money :: money

text \<open>The write options of an update; the marker may be absent.\<close>

record options =
  gdsa_autoconvert :: "bool option"

text \<open>The change description of an update: whether it has the property \<open>system.money\<close>.\<close>

record updateData =
  system_money :: "money option"

datatype notification =
  Warn_InsufficientFunds
| Info_OptimizedNotification string money
| Info_AlreadyOptimized

datatype effect =
  Notification notification
| Update string money options

record world =
  updateTimers :: "string \<rightharpoonup> nat"
  pendingTimeouts :: "nat \<rightharpoonup> string"
  nextTimeout :: nat
  actors :: "string \<rightharpoonup> actor"
  showNotifications :: bool
  system_id :: string
  effects :: "effect list"

text \<open>The truth value of an option that may be absent.\<close>

definition truthy :: "bool option \<Rightarrow> bool" where
  "truthy x = (case x of None \<Rightarrow> False | Some b \<Rightarrow> b)"

text \<open>
  \<open>setTimeout\<close> registers a callback under a fresh handle and returns the handle; the
  callback of the script is always \<open>performConversion actorId\<close>, so the host's table
  keeps the actor id. \<open>clearTimeout\<close> drops a handle.
\<close>

definition setTimeout :: "string \<Rightarrow> world \<Rightarrow> nat \<times> world" where
  "setTimeout actorId w =
     (nextTimeout w,
      w\<lparr>pendingTimeouts := (pendingTimeouts w)(nextTimeout w \<mapsto> actorId),
        nextTimeout := Suc (nextTimeout w)\<rparr>)"

definition clearTimeout :: "nat \<Rightarrow> world \<Rightarrow> world" where
  "clearTimeout h w = w\<lparr>pendingTimeouts := (pendingTimeouts w)(h := None)\<rparr>"

definition notify :: "notification \<Rightarrow> world \<Rightarrow> world" where
  "notify n w = w\<lparr>effects := effects w @ [Notification n]\<rparr>"

subsection \<open>Scheduling\<close>

definition scheduleConversion :: "string \<Rightarrow> world \<Rightarrow> world" where
  "scheduleConversion actorId w =
     (let w1 = (case updateTimers w actorId of
                  Some h \<Rightarrow> clearTimeout h w
                | None \<Rightarrow> w);
          (timer, w2) = setTimeout actorId w1
      in w2\<lparr>updateTimers := (updateTimers w2)(actorId \<mapsto> timer)\<rparr>)"

subsection \<open>The \<open>updateActor\<close> hook\<close>

text \<open>
  The hook receives the actor, whose id is the key under which \<open>game.actors\<close> holds it,
  the change description and the write options. The older script tests
  \<open>updateData.system?.money\<close> where the newer one calls \<open>hasProperty\<close>; for a money
  object the two tests agree.
\<close>

definition hasProperty_system_money :: "updateData \<Rightarrow> bool" where
  "hasProperty_system_money ud = (system_money ud \<noteq> None)"

definition updateActorHook :: "string \<Rightarrow> actor \<Rightarrow> updateData \<Rightarrow> options \<Rightarrow> world \<Rightarrow> world" where
  "updateActorHook actorId a ud opts w =
     (if truthy (gdsa_autoconvert opts) then w
      else if actor_type a \<noteq> ''PlayerCharakter'' \<or> system_id w \<noteq> ''gdsa'' then w
      else if \<not> hasProperty_system_money ud then w
      else scheduleConversion actorId w)"

text \<open>
  \<open>actor.update({"system.money": m}, opts)\<close> as the host carries it out: the money of the
  stored actor becomes \<open>m\<close>, the call is recorded, and the change is announced to the
  \<open>updateActor\<close> hook with the same options.
\<close>

definition actor_update :: "string \<Rightarrow> actor \<Rightarrow> money \<Rightarrow> options \<Rightarrow> world \<Rightarrow> world" where
  "actor_update actorId a m opts w =
     (let a' = a\<lparr>actor_money := m\<rparr>;
          w1 = w\<lparr>actors := (actors w)(actorId \<mapsto> a'),
                 effects := effects w @ [Update actorId m opts]\<rparr>
      in updateActorHook actorId a' \<lparr>system_money = Some m\<rparr> opts w1)"

subsection \<open>The apply-step\<close>

text \<open>
  \<open>performConversion\<close> first deletes the entry of the actor from \<open>updateTimers\<close>, then
  follows the branches of the script in their order. A comparison \<open>x !== y\<close> of a number
  with a field that may be absent is the inequality of the two options.
\<close>

definition zero_money :: money where
  "zero_money = \<lparr>gold = Some 0, silver = Some 0, copper = Some 0, nickel = Some 0\<rparr>"

definition autoconvert_options :: options where
  "autoconvert_options = \<lparr>gdsa_autoconvert = Some True\<rparr>"

definition performConversion :: "string \<Rightarrow> bool \<Rightarrow> world \<Rightarrow> world" where
  "performConversion actorId manual w0 =
     (let w = w0\<lparr>updateTimers := (updateTimers w0)(actorId := None)\<rparr> in
      case actors w actorId of
        None \<Rightarrow> w
      | Some a \<Rightarrow>
          (let currentMoney = actor_money a in
           if \<not> manual \<and> \<not> needsOptimization currentMoney then w
           else
             (let optimized = optimizeMoney currentMoney;
                  total = toBaseUnit optimized
              in if total < 0 then
                   (let w1 = (if showNotifications w \<or> manual
                              then notify Warn_InsufficientFunds w else w)
                    in actor_update actorId a zero_money autoconvert_options w1)
                 else if manual \<or> gold optimized \<noteq> gold currentMoney
                           \<or> silver optimized \<noteq> silver currentMoney
                           \<or> copper optimized \<noteq> copper currentMoney
                           \<or> nickel optimized \<noteq> nickel currentMoney then
                   (let w1 = actor_update actorId a optimized autoconvert_options w
                    in if showNotifications w1 \<or> manual
                       then notify (Info_OptimizedNotification (actor_name a) optimized) w1
                       else w1)
                 else if manual then notify Info_AlreadyOptimized w
                 else w)))"

text \<open>
  The apply-step of the older script \<open>scripts/auto-money-converter.js\<close>, which has no
  manual trigger.
\<close>

definition performConversion_auto :: "string \<Rightarrow> world \<Rightarrow> world" where
  "performConversion_auto actorId w0 =
     (let w = w0\<lparr>updateTimers := (updateTimers w0)(actorId := None)\<rparr> in
      case actors w actorId of
        None \<Rightarrow> w
      | Some a \<Rightarrow>
          (let currentMoney = actor_money a in
           if \<not> needsOptimization currentMoney then w
           else
             (let optimized = optimizeMoney currentMoney;
                  total = toBaseUnit optimized
              in if total < 0 then
                   (let w1 = (if showNotifications w
                              then notify Warn_InsufficientFunds w else w)
                    in actor_update actorId a zero_money autoconvert_options w1)
                 else if gold optimized \<noteq> gold currentMoney
                           \<or> silver optimized \<noteq> silver currentMoney
                           \<or> copper optimized \<noteq> copper currentMoney
                           \<or> nickel optimized \<noteq> nickel currentMoney then
                   (let w1 = actor_update actorId a optimized autoconvert_options w
                    in if showNotifications w1
                       then notify (Info_OptimizedNotification (actor_name a) optimized) w1
                       else w1)
                 else w)))"

subsection \<open>Events\<close>

text \<open>
  What can happen to the script after it is loaded: the host announces an update of an
  actor (the stored actor already holds the change), an actor is deleted, a pending
  timeout elapses and its callback runs, or the user confirms the manual exchange
  dialog of an actor.
\<close>

datatype event =
  UpdateActor string actor updateData options
| DeleteActor string
| TimeoutFires nat
| ManualExchange string

definition fire :: "nat \<Rightarrow> world \<Rightarrow> world" where
  "fire h w =
     (case pendingTimeouts w h of
        None \<Rightarrow> w
      | Some actorId \<Rightarrow>
          performConversion actorId False (w\<lparr>pendingTimeouts := (pendingTimeouts w)(h := None)\<rparr>))"

fun step :: "event \<Rightarrow> world \<Rightarrow> world" where
  "step (UpdateActor actorId a ud opts) w =
     updateActorHook actorId a ud opts (w\<lparr>actors := (actors w)(actorId \<mapsto> a)\<rparr>)"
| "step (DeleteActor actorId) w = w\<lparr>actors := (actors w)(actorId := None)\<rparr>"
| "step (TimeoutFires h) w = fire h w"
| "step (ManualExchange actorId) w = performConversion actorId True w"

fun run :: "event list \<Rightarrow> world \<Rightarrow> world" where
  "run [] w = w"
| "run (e # es) w = run es (step e w)"

fun is_manual :: "event \<Rightarrow> bool" where
  "is_manual (ManualExchange actorId) = True"
| "is_manual e = False"

text \<open>The world when the script is loaded: no timer has been set yet.\<close>

definition loaded :: "(string \<rightharpoonup> actor) \<Rightarrow> bool \<Rightarrow> string \<Rightarrow> world" where
  "loaded acts notifications sys =
     \<lparr>updateTimers = Map.empty, pendingTimeouts = Map.empty, nextTimeout = 1,
      actors = acts, showNotifications = notifications, system_id = sys, effects = []\<rparr>"

subsection \<open>Worlds for the scenarios\<close>

text \<open>
  A player character with a given purse, and the world just after loading in which it
  is the only actor, stored under the id \<open>a1\<close> in the game system \<open>gdsa\<close>.
\<close>

definition player :: "money \<Rightarrow> actor" where
  "player m = \<lparr>actor_type = ''PlayerCharakter'', actor_name = ''Alrik'', actor_money = m\<rparr>"

definition world_of :: "money \<Rightarrow> bool \<Rightarrow> world" where
  "world_of m notifications = loaded [''a1'' \<mapsto> player m] notifications ''gdsa''"

definition coins :: "int \<Rightarrow> int \<Rightarrow> int \<Rightarrow> int \<Rightarrow> money" where
  "coins g s c k = \<lparr>gold = Some g, silver = Some s, copper = Some c, nickel = Some k\<rparr>"

text \<open>
  The invariant of the timers: every entry of \<open>updateTimers\<close> is a pending timeout of
  that actor, and every pending handle is older than the next handle to be issued.
\<close>

definition timers_ok :: "world \<Rightarrow> bool" where
  "timers_ok w \<longleftrightarrow>
     (\<forall>actorId h. updateTimers w actorId = Some h \<longrightarrow> pendingTimeouts w h = Some actorId)
     \<and> (\<forall>h actorId. pendingTimeouts w h = Some actorId \<longrightarrow> h < nextTimeout w)"

text \<open>Every pending timeout is the one recorded in \<open>updateTimers\<close> for its actor.\<close>

definition no_orphans :: "world \<Rightarrow> bool" where
  "no_orphans w \<longleftrightarrow>
     (\<forall>h actorId. pendingTimeouts w h = Some actorId \<longrightarrow> updateTimers w actorId = Some h)"

text \<open>The notification of an edit of the purse of \<open>a1\<close> by the user (no marker).\<close>

definition money_changed :: "money \<Rightarrow> event" where
  "money_changed m =
     UpdateActor ''a1'' (player m) \<lparr>system_money = Some m\<rparr> \<lparr>gdsa_autoconvert = None\<rparr>"

section \<open>Properties of the arithmetic\<close>

subsection \<open>Binary digits and rounding\<close>

lemma bit_length_upper: "0 \<le> k \<Longrightarrow> k < 2 ^ bit_length k"
proof (induction k rule: bit_length.induct)
  case (1 k)
  show ?case
  proof (cases "k \<le> 0")
    case True
    then show ?thesis using "1.prems" by (simp add: bit_length.simps)
  next
    case False
    then have "k div 2 < 2 ^ bit_length (k div 2)"
      using "1.IH" by simp
    then have "k < 2 * 2 ^ bit_length (k div 2)" by linarith
    then show ?thesis using False by (simp add: bit_length.simps [of k])
  qed
qed

lemma bit_length_lower: "0 < k \<Longrightarrow> \<exists>l. bit_length k = Suc l \<and> 2 ^ l \<le> k"
proof (induction k rule: bit_length.induct)
  case (1 k)
  have pos: "\<not> k \<le> 0" using "1.prems" by simp
  have bl: "bit_length k = Suc (bit_length (k div 2))"
    using pos by (simp add: bit_length.simps [of k])
  show ?case
  proof (cases "0 < k div 2")
    case True
    then obtain l where l: "bit_length (k div 2) = Suc l" "2 ^ l \<le> k div 2"
      using "1.IH" pos by blast
    then have "2 ^ Suc l \<le> k" by simp
    then show ?thesis using bl l(1) by simp
  next
    case False
    then have "bit_length (k div 2) = 0" by (simp add: bit_length.simps [of "k div 2"])
    then show ?thesis using bl "1.prems" by simp
  qed
qed

lemma rhe_div_cases:
  "rhe_div p q = p div q \<or> (rhe_div p q = p div q + 1 \<and> q \<le> 2 * (p mod q))"
  by (simp add: rhe_div_def Let_def)

lemma rhe_div_nonneg: "0 \<le> p \<Longrightarrow> 0 < q \<Longrightarrow> 0 \<le> rhe_div p q"
  using rhe_div_cases [of p q] pos_imp_zdiv_nonneg_iff [of q p] by auto

lemma rhe_div_exact: "0 < q \<Longrightarrow> rhe_div (k * q) q = k"
  by (simp add: rhe_div_def Let_def)

subsection \<open>Exactness on safe integers\<close>

text \<open>
  The heart of the matter: when the shift \<open>S\<close> is large enough that \<open>b < 2 * S\<close>, that
  is when half a unit in the last place is below \<open>1 / b\<close>, rounding the quotient
  cannot carry it across an integer, so flooring the rounded quotient gives the integer
  quotient.
\<close>

lemma quot_round_floor:
  assumes b: "0 < b" and S: "0 < S" and bS: "b < 2 * S"
  shows "rhe_div (a * S) b div S = a div b"
proof -
  define k where "k = a div b"
  define r where "r = a mod b"
  define q' where "q' = (r * S) div b"
  define t where "t = (r * S) mod b"
  have r: "0 \<le> r" "r < b" using b by (simp_all add: r_def)
  have a: "a = k * b + r" by (simp add: k_def r_def)
  have rS: "r * S = q' * b + t" by (simp add: q'_def t_def)
  have t: "0 \<le> t" "t < b" using b by (simp_all add: t_def)
  have aS: "a * S = (k * S + q') * b + t"
    using a rS by (simp add: algebra_simps)
  have d: "(a * S) div b = k * S + q'"
    unfolding aS using t b by simp
  have m: "(a * S) mod b = t"
    unfolding aS using t b by simp
  have q0: "0 \<le> q'"
    unfolding q'_def using r S b by (simp add: pos_imp_zdiv_nonneg_iff)
  have rS_le: "r * S \<le> b * S - S"
  proof -
    have "r * S \<le> (b - 1) * S" using r S by (intro mult_right_mono) simp_all
    then show ?thesis by (simp add: algebra_simps)
  qed
  have q1: "q' * b \<le> b * S - S" using rS rS_le t by linarith
  have qS: "q' < S"
  proof (rule ccontr)
    assume "\<not> q' < S"
    then have "S * b \<le> q' * b" using b by (intro mult_right_mono) simp_all
    then show False using q1 S by (simp add: algebra_simps)
  qed
  have up: "q' + 1 < S" if "b \<le> 2 * t"
  proof (rule ccontr)
    assume "\<not> q' + 1 < S"
    then have "q' = S - 1" using qS by simp
    then have "r * S = (S - 1) * b + t" using rS by simp
    then have "t \<le> b - S" using rS_le by (simp add: algebra_simps)
    then show False using that bS by simp
  qed
  from rhe_div_cases [of "a * S" b]
  obtain e where e: "rhe_div (a * S) b = k * S + e" "0 \<le> e" "e < S"
    using d m q0 qS up by fastforce
  have "(k * S + e) div S = k"
    using e S by simp
  then show ?thesis by (simp add: e(1) k_def)
qed

lemma floor_div_safe:
  assumes a: "\<bar>a\<bar> < 2 ^ 53" and b: "0 < b"
  shows "floor_div a b = a div b"
proof (cases "a = 0")
  case True
  then show ?thesis by (simp add: floor_div_def)
next
  case a0: False
  show ?thesis
  proof (cases "b \<le> \<bar>a\<bar>")
    case True
    define q0 where "q0 = \<bar>a\<bar> div b"
    have q0pos: "0 < q0"
      unfolding q0_def using True b by (simp add: pos_imp_zdiv_pos_iff)
    obtain l where l: "bit_length q0 = Suc l" "2 ^ l \<le> q0"
      using bit_length_lower [OF q0pos] by blast
    have q0b: "q0 * b \<le> \<bar>a\<bar>"
    proof -
      have "\<bar>a\<bar> = q0 * b + \<bar>a\<bar> mod b" by (simp add: q0_def)
      moreover have "0 \<le> \<bar>a\<bar> mod b" using b by simp
      ultimately show ?thesis by linarith
    qed
    have "2 ^ l * b \<le> q0 * b" using l(2) b by (intro mult_right_mono) simp_all
    then have lb: "(2::int) ^ l * b < 2 ^ 53" using q0b a by linarith
    have "(2::int) ^ l * 1 \<le> 2 ^ l * b" using b by (intro mult_left_mono) simp_all
    then have "(2::int) ^ l \<le> 2 ^ l * b" by (simp only: mult_1_right)
    then have "(2::int) ^ l < 2 ^ 53" using lb by (rule le_less_trans)
    then have l52: "l < 53" by (rule power_less_imp_less_exp [rotated]) simp
    have le: "Suc l \<le> 53" using l52 by simp
    have pw: "(2::int) ^ 53 = 2 ^ l * (2 * 2 ^ (53 - Suc l))"
    proof -
      have "(53::nat) = l + Suc (53 - Suc l)" using l52 by simp
      then have "(2::int) ^ 53 = 2 ^ (l + Suc (53 - Suc l))" by simp
      then show ?thesis by (simp only: power_add power_Suc)
    qed
    have pos: "(0::int) < 2 ^ l" by simp
    have "(2::int) ^ l * b < 2 ^ l * (2 * 2 ^ (53 - Suc l))" using lb by (simp only: pw)
    then have bS: "b < 2 * 2 ^ (53 - Suc l)"
      using mult_less_cancel_left_pos [OF pos] by blast
    have "floor_div a b = rhe_div (a * 2 ^ (53 - Suc l)) b div 2 ^ (53 - Suc l)"
      using a0 True le l(1) by (simp add: floor_div_def Let_def q0_def)
    also have "\<dots> = a div b"
      using b bS by (intro quot_round_floor) simp_all
    finally show ?thesis .
  next
    case False
    define j where "j = bit_length ((b - 1) div \<bar>a\<bar>)"
    have apos: "0 < \<bar>a\<bar>" using a0 by simp
    have "0 \<le> (b - 1) div \<bar>a\<bar>" using b apos by (simp add: pos_imp_zdiv_nonneg_iff)
    then have "(b - 1) div \<bar>a\<bar> < 2 ^ j"
      unfolding j_def by (rule bit_length_upper)
    then have "(b - 1) div \<bar>a\<bar> + 1 \<le> 2 ^ j" by simp
    then have "((b - 1) div \<bar>a\<bar> + 1) * \<bar>a\<bar> \<le> 2 ^ j * \<bar>a\<bar>"
      by (intro mult_right_mono) simp_all
    then have "(b - 1) div \<bar>a\<bar> * \<bar>a\<bar> + \<bar>a\<bar> \<le> 2 ^ j * \<bar>a\<bar>"
      by (simp add: algebra_simps)
    moreover have "b - 1 = (b - 1) div \<bar>a\<bar> * \<bar>a\<bar> + (b - 1) mod \<bar>a\<bar>" by simp
    moreover have "(b - 1) mod \<bar>a\<bar> < \<bar>a\<bar>" using apos by simp
    ultimately have "b - 1 < 2 ^ j * \<bar>a\<bar>" by linarith
    moreover have "2 ^ j * \<bar>a\<bar> < 2 ^ j * 2 ^ 53"
      using a by (intro mult_strict_left_mono) simp_all
    ultimately have "b < 2 ^ j * 2 ^ 53" by linarith
    moreover have "(2::int) ^ j * 2 ^ 53 = 2 * 2 ^ (52 + j)" by (simp add: power_add)
    ultimately have bS: "b < 2 * 2 ^ (52 + j)" by (simp only:)
    have "floor_div a b = rhe_div (a * 2 ^ (52 + j)) b div 2 ^ (52 + j)"
      using a0 False by (simp add: floor_div_def Let_def j_def)
    also have "\<dots> = a div b"
      using b bS by (intro quot_round_floor) simp_all
    finally show ?thesis .
  qed
qed

lemma round_int_safe: "\<bar>k\<bar> < 2 ^ 53 \<Longrightarrow> round_int k = k"
  by (simp add: round_int_def)

lemma round_int_nonneg: "0 \<le> k \<Longrightarrow> 0 \<le> round_int k"
  by (simp add: round_int_def Let_def rhe_div_nonneg)

lemma floor_div_nonneg:
  assumes "0 \<le> a" "0 < b"
  shows "0 \<le> floor_div a b"
proof -
  have 1: "0 \<le> rhe_div (a * s) b div s" if "0 < s" for s
    using that assms by (simp add: pos_imp_zdiv_nonneg_iff rhe_div_nonneg)
  have 2: "0 \<le> rhe_div a (b * u) * u" if "0 < u" for u
    using that assms by (simp add: rhe_div_nonneg)
  show ?thesis
    using 1 2 by (simp add: floor_div_def Let_def)
qed

section \<open>Properties of the normalizer\<close>

lemmas rates = RATE_gold_def RATE_silver_def RATE_copper_def RATE_nickel_def

lemma or_zero_simps [simp]: "or_zero None = 0" "or_zero (Some v) = v"
  by (simp_all add: or_zero_def)

lemma js_rem_nonneg: "0 \<le> a \<Longrightarrow> 0 < b \<Longrightarrow> js_rem a b = a mod b"
  by (cases "a = 0") (simp_all add: js_rem_def)

lemma js_rem_neg: "a < 0 \<Longrightarrow> 0 < b \<Longrightarrow> js_rem a b = - ((- a) mod b)"
  by (simp add: js_rem_def)

lemma small_is_safe: "- 1000 < (x::int) \<Longrightarrow> x < 1000 \<Longrightarrow> \<bar>x\<bar> < 2 ^ 53"
  by simp

lemma fromBaseUnit_nonneg:
  assumes "0 \<le> n"
  shows "fromBaseUnit n =
    \<lparr>gold = Some (floor_div n 1000), silver = Some (n mod 1000 div 100),
     copper = Some (n mod 100 div 10), nickel = Some (n mod 10)\<rparr>"
proof -
  have r1: "js_rem n 1000 = n mod 1000"
    using assms by (simp add: js_rem_nonneg)
  have r2: "js_rem (n mod 1000) 100 = n mod 100"
    by (simp add: js_rem_nonneg mod_mod_cancel)
  have r3: "js_rem (n mod 100) 10 = n mod 10"
    by (simp add: js_rem_nonneg mod_mod_cancel)
  have s: "floor_div (n mod 1000) 100 = n mod 1000 div 100"
    by (intro floor_div_safe small_is_safe) simp_all
  have c: "floor_div (n mod 100) 10 = n mod 100 div 10"
    by (intro floor_div_safe small_is_safe) simp_all
  show ?thesis
    by (simp add: fromBaseUnit_def Let_def rates r1 r2 r3 s c)
qed

lemma fromBaseUnit_safe:
  assumes "0 \<le> n" "n < 2 ^ 53"
  shows "fromBaseUnit n =
    \<lparr>gold = Some (n div 1000), silver = Some (n mod 1000 div 100),
     copper = Some (n mod 100 div 10), nickel = Some (n mod 10)\<rparr>"
proof -
  have "\<bar>n\<bar> < 2 ^ 53" using assms by simp
  then have "floor_div n 1000 = n div 1000" by (rule floor_div_safe) simp
  then show ?thesis by (simp add: fromBaseUnit_nonneg [OF assms(1)])
qed

lemma toBaseUnit_exact_nonneg:
  assumes "0 \<le> g" "0 \<le> s" "0 \<le> c" "0 \<le> k"
    and "g * 1000 + s * 100 + c * 10 + k < 2 ^ 53"
  shows "toBaseUnit \<lparr>gold = Some g, silver = Some s, copper = Some c, nickel = Some k\<rparr>
         = g * 1000 + s * 100 + c * 10 + k"
proof -
  have p: "\<bar>g * 1000\<bar> < 2 ^ 53" "\<bar>s * 100\<bar> < 2 ^ 53" "\<bar>c * 10\<bar> < 2 ^ 53" "\<bar>k\<bar> < 2 ^ 53"
    using assms by simp_all
  have q: "\<bar>g * 1000 + s * 100\<bar> < 2 ^ 53" "\<bar>g * 1000 + s * 100 + c * 10\<bar> < 2 ^ 53"
    "\<bar>g * 1000 + s * 100 + c * 10 + k\<bar> < 2 ^ 53"
    using assms by simp_all
  show ?thesis
    by (simp only: toBaseUnit_def money.simps or_zero_simps rates js_mul_def js_add_def
        round_int_safe [OF p(1)] round_int_safe [OF p(2)] round_int_safe [OF p(3)]
        round_int_safe [OF q(1)] round_int_safe [OF q(2)] round_int_safe [OF q(3)]
        mult_1_right round_int_safe [OF p(4)])
qed

lemma decimal_digits:
  fixes n :: int
  shows "n div 1000 * 1000 + n mod 1000 div 100 * 100 + n mod 100 div 10 * 10 + n mod 10 = n"
proof -
  have a: "n = n div 1000 * 1000 + n mod 1000" by simp
  have b: "n mod 1000 = n mod 1000 div 100 * 100 + n mod 1000 mod 100" by simp
  have b': "n mod 1000 mod 100 = n mod 100" by (simp add: mod_mod_cancel)
  have c: "n mod 100 = n mod 100 div 10 * 10 + n mod 100 mod 10" by simp
  have c': "n mod 100 mod 10 = n mod 10" by (simp add: mod_mod_cancel)
  show ?thesis using a b b' c c' by linarith
qed

lemma div100_bounds:
  "0 \<le> (x::int) \<Longrightarrow> x < 1000 \<Longrightarrow> 0 \<le> x div 100 \<and> x div 100 \<le> 9"
  using zdiv_mono1 [of x 999 100] by (simp add: pos_imp_zdiv_nonneg_iff)

lemma div10_bounds:
  "0 \<le> (x::int) \<Longrightarrow> x < 100 \<Longrightarrow> 0 \<le> x div 10 \<and> x div 10 \<le> 9"
  using zdiv_mono1 [of x 99 10] by (simp add: pos_imp_zdiv_nonneg_iff)

lemma digits_range:
  fixes n :: int
  shows "0 \<le> n mod 1000 div 100 \<and> n mod 1000 div 100 \<le> 9"
    and "0 \<le> n mod 100 div 10 \<and> n mod 100 div 10 \<le> 9"
    and "0 \<le> n mod 10 \<and> n mod 10 \<le> 9"
proof -
  show "0 \<le> n mod 1000 div 100 \<and> n mod 1000 div 100 \<le> 9"
    by (rule div100_bounds) simp_all
  show "0 \<le> n mod 100 div 10 \<and> n mod 100 div 10 \<le> 9"
    by (rule div10_bounds) simp_all
  have "n mod 10 < 10" by simp
  then show "0 \<le> n mod 10 \<and> n mod 10 \<le> 9" by simp
qed

lemma toBaseUnit_fromBaseUnit_safe:
  assumes "0 \<le> n" "n < 2 ^ 53"
  shows "toBaseUnit (fromBaseUnit n) = n"
proof -
  have g: "0 \<le> n div 1000" using assms(1) by (simp add: pos_imp_zdiv_nonneg_iff)
  have "toBaseUnit (fromBaseUnit n) =
      n div 1000 * 1000 + n mod 1000 div 100 * 100 + n mod 100 div 10 * 10 + n mod 10"
    unfolding fromBaseUnit_safe [OF assms]
    using g digits_range [of n] assms(2)
    by (intro toBaseUnit_exact_nonneg) (simp_all only: decimal_digits)
  then show ?thesis by (simp only: decimal_digits)
qed

subsection \<open>Signs\<close>

lemma toBaseUnit_nonneg:
  assumes "0 \<le> or_zero (gold m)" "0 \<le> or_zero (silver m)" "0 \<le> or_zero (copper m)"
    "0 \<le> or_zero (nickel m)"
  shows "0 \<le> toBaseUnit m"
  using assms
  by (simp add: toBaseUnit_def js_add_def js_mul_def rates round_int_nonneg)

lemma toBaseUnit_optimizeMoney_nonneg:
  assumes "0 \<le> toBaseUnit m"
  shows "0 \<le> toBaseUnit (optimizeMoney m)"
proof -
  have "0 \<le> floor_div (toBaseUnit m) 1000"
    using assms by (intro floor_div_nonneg) simp_all
  then show ?thesis
    using digits_range [of "toBaseUnit m"]
    by (intro toBaseUnit_nonneg)
      (simp_all add: optimizeMoney_def fromBaseUnit_nonneg [OF assms])
qed

subsection \<open>Negative totals\<close>

text \<open>
  On a negative total the quotients are floored but \<open>%\<close> keeps the sign of the
  dividend, so every remainder is non-positive.
\<close>

lemma js_rem_nonpos_bounds:
  assumes "a \<le> 0" "0 < b"
  shows "- b < js_rem a b \<and> js_rem a b \<le> 0"
proof (cases "a = 0")
  case True
  then show ?thesis using assms by (simp add: js_rem_def)
next
  case False
  then have neg: "a < 0" using assms by simp
  have "0 \<le> (- a) mod b" "(- a) mod b < b" using assms by simp_all
  then show ?thesis by (simp add: js_rem_neg [OF neg assms(2)])
qed

lemma neg_div100_bounds:
  "- 1000 < (x::int) \<Longrightarrow> x \<le> 0 \<Longrightarrow> - 10 \<le> x div 100 \<and> x div 100 \<le> 0"
  using zdiv_mono1 [of "- 999" x 100] zdiv_mono1 [of x 0 100] by simp

lemma neg_div10_bounds:
  "- 100 < (x::int) \<Longrightarrow> x \<le> 0 \<Longrightarrow> - 10 \<le> x div 10 \<and> x div 10 \<le> 0"
  using zdiv_mono1 [of "- 99" x 10] zdiv_mono1 [of x 0 10] by simp

lemma fromBaseUnit_neg_fields:
  assumes "n < 0" "- (2 ^ 53) < n"
  shows "\<exists>s c k. fromBaseUnit n =
           \<lparr>gold = Some (n div 1000), silver = Some s, copper = Some c, nickel = Some k\<rparr>
         \<and> n div 1000 < 0 \<and> - 10 \<le> s \<and> s \<le> 0 \<and> - 10 \<le> c \<and> c \<le> 0 \<and> - 9 \<le> k \<and> k \<le> 0
         \<and> n div 1000 * 1000 + s * 100 + c * 10 + k \<le> n"
proof -
  define r1 where "r1 = js_rem n 1000"
  define r2 where "r2 = js_rem r1 100"
  define r3 where "r3 = js_rem r2 10"
  have b1: "- 1000 < r1 \<and> r1 \<le> 0"
    unfolding r1_def using assms by (intro js_rem_nonpos_bounds) simp_all
  have b2: "- 100 < r2 \<and> r2 \<le> 0"
    unfolding r2_def using b1 by (intro js_rem_nonpos_bounds) simp_all
  have b3: "- 10 < r3 \<and> r3 \<le> 0"
    unfolding r3_def using b2 by (intro js_rem_nonpos_bounds) simp_all
  have g: "n div 1000 < 0"
    using assms by (simp add: pos_imp_zdiv_neg_iff)
  have s: "- 10 \<le> r1 div 100 \<and> r1 div 100 \<le> 0"
    using b1 by (intro neg_div100_bounds) simp_all
  have c: "- 10 \<le> r2 div 10 \<and> r2 div 10 \<le> 0"
    using b2 by (intro neg_div10_bounds) simp_all
  have "\<bar>n\<bar> < 2 ^ 53" using assms by simp
  then have fg: "floor_div n 1000 = n div 1000" by (rule floor_div_safe) simp
  have fs: "floor_div r1 100 = r1 div 100"
    using b1 by (intro floor_div_safe small_is_safe) simp_all
  have fc: "floor_div r2 10 = r2 div 10"
    using b2 by (intro floor_div_safe small_is_safe) simp_all
  have eq: "fromBaseUnit n =
      \<lparr>gold = Some (n div 1000), silver = Some (r1 div 100), copper = Some (r2 div 10),
       nickel = Some r3\<rparr>"
    by (simp add: fromBaseUnit_def Let_def rates r1_def [symmetric] r2_def [symmetric]
        r3_def [symmetric] fg fs fc)
  have "n div 1000 * 1000 = n - n mod 1000"
    by (simp add: algebra_simps minus_mod_eq_mult_div)
  moreover have "0 \<le> n mod 1000" by simp
  ultimately have "n div 1000 * 1000 \<le> n" by linarith
  then have le: "n div 1000 * 1000 + r1 div 100 * 100 + r2 div 10 * 10 + r3 \<le> n"
    using s c b3 by simp
  show ?thesis
    using eq g s c b3 le by simp
qed

lemma fromBaseUnit_minus_five:
  "fromBaseUnit (- 5) =
     \<lparr>gold = Some (- 1), silver = Some (- 1), copper = Some (- 1), nickel = Some (- 5)\<rparr>"
  by (simp add: fromBaseUnit_def floor_div_safe js_rem_def rates)

lemma toBaseUnit_small:
  "toBaseUnit \<lparr>gold = Some (- 1), silver = Some (- 1), copper = Some (- 1), nickel = Some (- 5)\<rparr>
     = - 1115"
  by (simp add: toBaseUnit_def js_mul_def js_add_def round_int_def rates)

subsection \<open>The claims about the normalizer\<close>

text \<open>
  C1, as the script behaves. For every integer \<open>n\<close> with \<open>0 \<le> n < 2 ^ 53\<close> (a
  non-negative safe integer) the round trip \<open>toBaseUnit (fromBaseUnit n) = n\<close> is
  lossless. (Below 0 it is not, because the script sends negative totals to the zero
  record instead; from \<open>2 ^ 53\<close> on it is not, because doubles round.)
\<close>

theorem toBaseUnit_fromBaseUnit_roundtrip:
  "0 \<le> n \<Longrightarrow> n < 2 ^ 53 \<Longrightarrow> toBaseUnit (fromBaseUnit n) = n"
  by (rule toBaseUnit_fromBaseUnit_safe)

theorem toBaseUnit_fromBaseUnit_roundtrip_witness:
  "(0::int) \<le> 1234 \<and> (1234::int) < 2 ^ 53 \<and> toBaseUnit (fromBaseUnit 1234) = 1234"
  using toBaseUnit_fromBaseUnit_roundtrip [of 1234] by simp

text \<open>
  C1 as stated (for every integer, negative and large ones included) fails:
  \<open>fromBaseUnit (- 5)\<close> is the record (-1, -1, -1, -5), whose base-unit value is -1115,
  and the round trip of \<open>2 ^ 60\<close> is 1152921504606848000.
\<close>

theorem roundtrip_negative_counterexample:
  "toBaseUnit (fromBaseUnit (- 5)) \<noteq> - 5
   \<and> toBaseUnit (fromBaseUnit 1152921504606846976) = 1152921504606848000
   \<and> toBaseUnit (fromBaseUnit 1152921504606846976) \<noteq> 1152921504606846976"
proof -
  have "toBaseUnit (fromBaseUnit (- 5)) = - 1115"
    by (simp only: fromBaseUnit_minus_five toBaseUnit_small)
  moreover have "toBaseUnit (fromBaseUnit 1152921504606846976) = 1152921504606848000"
    by code_simp
  ultimately show ?thesis by simp
qed

text \<open>
  C2, as the script behaves. For every negative total above \<open>- (2 ^ 53)\<close>, gold is the
  floored quotient \<open>total div 1000\<close> and is negative, but the remainders keep the sign
  of the total: silver and copper lie between -10 and 0 and nickel between -9 and 0.
  The coins of the record are worth at most the total, and in general not the total
  itself.
\<close>

theorem fromBaseUnit_negative_total:
  assumes "n < 0" "- (2 ^ 53) < n"
  shows "\<exists>g s c k. fromBaseUnit n =
           \<lparr>gold = Some g, silver = Some s, copper = Some c, nickel = Some k\<rparr>
         \<and> g = n div 1000 \<and> g < 0 \<and> - 10 \<le> s \<and> s \<le> 0 \<and> - 10 \<le> c \<and> c \<le> 0
         \<and> - 9 \<le> k \<and> k \<le> 0 \<and> g * 1000 + s * 100 + c * 10 + k \<le> n"
  using fromBaseUnit_neg_fields [OF assms] by auto

theorem fromBaseUnit_negative_total_witness:
  "(- 999 :: int) < 0 \<and> - (2 ^ 53) < (- 999 :: int)
   \<and> (\<exists>g s c k. fromBaseUnit (- 999) =
           \<lparr>gold = Some g, silver = Some s, copper = Some c, nickel = Some k\<rparr>
         \<and> g = (- 999) div 1000 \<and> g < 0 \<and> - 10 \<le> s \<and> s \<le> 0 \<and> - 10 \<le> c \<and> c \<le> 0
         \<and> - 9 \<le> k \<and> k \<le> 0 \<and> g * 1000 + s * 100 + c * 10 + k \<le> - 999)"
  using fromBaseUnit_negative_total [of "- 999"] by simp

text \<open>
  C2 as stated (non-negative nickel, copper and silver on a negative total) fails at
  the total -5: all three lower fields are negative.
\<close>

theorem fromBaseUnit_negative_counterexample:
  "fromBaseUnit (- 5) =
     \<lparr>gold = Some (- 1), silver = Some (- 1), copper = Some (- 1), nickel = Some (- 5)\<rparr>"
  by (rule fromBaseUnit_minus_five)

text \<open>
  C5. For every non-negative integer \<open>n\<close>, \<open>fromBaseUnit n\<close> returns a record whose
  nickel, copper and silver fields are each in the range 0 to 9 and whose gold field is
  non-negative.
\<close>

theorem fromBaseUnit_canonical_range:
  assumes "0 \<le> n"
  shows "\<exists>g s c k. fromBaseUnit n =
           \<lparr>gold = Some g, silver = Some s, copper = Some c, nickel = Some k\<rparr>
         \<and> 0 \<le> g \<and> 0 \<le> s \<and> s \<le> 9 \<and> 0 \<le> c \<and> c \<le> 9 \<and> 0 \<le> k \<and> k \<le> 9"
proof -
  have "0 \<le> floor_div n 1000"
    using assms by (intro floor_div_nonneg) simp_all
  then show ?thesis
    using digits_range [of n] by (simp add: fromBaseUnit_nonneg [OF assms])
qed

theorem fromBaseUnit_canonical_range_witness:
  "(0::int) \<le> 1234 \<and> (\<exists>g s c k. fromBaseUnit 1234 =
           \<lparr>gold = Some g, silver = Some s, copper = Some c, nickel = Some k\<rparr>
         \<and> 0 \<le> g \<and> 0 \<le> s \<and> s \<le> 9 \<and> 0 \<le> c \<and> c \<le> 9 \<and> 0 \<le> k \<and> k \<le> 9)"
  using fromBaseUnit_canonical_range [of 1234] by simp

text \<open>
  C6, as the script behaves. For every money record \<open>m\<close> whose base-unit total, as the
  script computes it, is a non-negative safe integer (\<open>0 \<le> toBaseUnit m < 2 ^ 53\<close>),
  \<open>optimizeMoney (optimizeMoney m) = optimizeMoney m\<close>.
\<close>

theorem optimizeMoney_idempotent:
  assumes "0 \<le> toBaseUnit m" "toBaseUnit m < 2 ^ 53"
  shows "optimizeMoney (optimizeMoney m) = optimizeMoney m"
  using assms by (simp add: optimizeMoney_def toBaseUnit_fromBaseUnit_safe)

lemma toBaseUnit_example:
  "toBaseUnit \<lparr>gold = Some 1, silver = Some 12, copper = None, nickel = Some (- 3)\<rparr> = 2197"
  by (simp add: toBaseUnit_def js_mul_def js_add_def round_int_def rates)

theorem optimizeMoney_idempotent_witness:
  "0 \<le> toBaseUnit \<lparr>gold = Some 1, silver = Some 12, copper = None, nickel = Some (- 3)\<rparr>
   \<and> toBaseUnit \<lparr>gold = Some 1, silver = Some 12, copper = None, nickel = Some (- 3)\<rparr> < 2 ^ 53
   \<and> optimizeMoney (optimizeMoney
        \<lparr>gold = Some 1, silver = Some 12, copper = None, nickel = Some (- 3)\<rparr>)
     = optimizeMoney \<lparr>gold = Some 1, silver = Some 12, copper = None, nickel = Some (- 3)\<rparr>"
proof -
  have h1: "0 \<le> toBaseUnit \<lparr>gold = Some 1, silver = Some 12, copper = None, nickel = Some (- 3)\<rparr>"
    by (simp add: toBaseUnit_example)
  have h2: "toBaseUnit \<lparr>gold = Some 1, silver = Some 12, copper = None, nickel = Some (- 3)\<rparr>
      < 2 ^ 53"
    by (simp add: toBaseUnit_example)
  show ?thesis
    using h1 h2 optimizeMoney_idempotent [OF h1 h2] by simp
qed

text \<open>
  C6 as stated (for every record with a non-negative total) fails beyond the safe
  integers: the purse with \<open>2 ^ 60\<close> nickel and nothing else has a non-negative total,
  and optimizing it twice gives another record than optimizing it once.
\<close>

theorem optimizeMoney_idempotent_counterexample:
  "0 \<le> toBaseUnit \<lparr>gold = None, silver = None, copper = None, nickel = Some 1152921504606846976\<rparr>
   \<and> optimizeMoney \<lparr>gold = None, silver = None, copper = None, nickel = Some 1152921504606846976\<rparr>
       = \<lparr>gold = Some 1152921504606847, silver = Some 9, copper = Some 7, nickel = Some 6\<rparr>
   \<and> optimizeMoney (optimizeMoney
         \<lparr>gold = None, silver = None, copper = None, nickel = Some 1152921504606846976\<rparr>)
       = \<lparr>gold = Some 1152921504606848, silver = Some 0, copper = Some 0, nickel = Some 0\<rparr>
   \<and> optimizeMoney (optimizeMoney
         \<lparr>gold = None, silver = None, copper = None, nickel = Some 1152921504606846976\<rparr>)
       \<noteq> optimizeMoney
         \<lparr>gold = None, silver = None, copper = None, nickel = Some 1152921504606846976\<rparr>"
proof -
  have t: "toBaseUnit \<lparr>gold = None, silver = None, copper = None,
      nickel = Some 1152921504606846976\<rparr> = 1152921504606846976"
    by code_simp
  have g: "floor_div 1152921504606846976 1000 = 1152921504606847"
    by code_simp
  have o: "optimizeMoney \<lparr>gold = None, silver = None, copper = None,
      nickel = Some 1152921504606846976\<rparr>
       = \<lparr>gold = Some 1152921504606847, silver = Some 9, copper = Some 7, nickel = Some 6\<rparr>"
    by (simp add: optimizeMoney_def t fromBaseUnit_nonneg g)
  have t2: "toBaseUnit \<lparr>gold = Some 1152921504606847, silver = Some 9, copper = Some 7,
      nickel = Some 6\<rparr> = 1152921504606848000"
    by code_simp
  have g2: "floor_div 1152921504606848000 1000 = 1152921504606848"
    by code_simp
  have o2: "optimizeMoney \<lparr>gold = Some 1152921504606847, silver = Some 9, copper = Some 7,
      nickel = Some 6\<rparr>
       = \<lparr>gold = Some 1152921504606848, silver = Some 0, copper = Some 0, nickel = Some 0\<rparr>"
    by (simp add: optimizeMoney_def t2 fromBaseUnit_nonneg g2)
  show ?thesis
    by (simp add: t o o2)
qed

text \<open>
  C7. With absent fields read as 0, \<open>needsOptimization\<close> is true exactly when one of
  nickel, copper, silver is at least 10, or one of nickel, copper, silver, gold is
  negative. It is a function of the record alone.
\<close>

theorem needsOptimization_iff:
  "needsOptimization m \<longleftrightarrow>
     (10 \<le> absent_as_zero (nickel m) \<or> 10 \<le> absent_as_zero (copper m)
        \<or> 10 \<le> absent_as_zero (silver m))
     \<or> (absent_as_zero (nickel m) < 0 \<or> absent_as_zero (copper m) < 0
        \<or> absent_as_zero (silver m) < 0 \<or> absent_as_zero (gold m) < 0)"
proof -
  have "or_zero x = absent_as_zero x" for x
    by (simp add: or_zero_def absent_as_zero_def split: option.splits)
  then show ?thesis
    by (simp add: needsOptimization_def Let_def)
qed

lemma needsOptimization_examples:
  "needsOptimization \<lparr>gold = None, silver = None, copper = None, nickel = Some 10\<rparr>"
  "\<not> needsOptimization \<lparr>gold = Some 1, silver = Some 0, copper = Some 0, nickel = Some 0\<rparr>"
  "needsOptimization \<lparr>gold = None, silver = None, copper = Some (- 1), nickel = None\<rparr>"
  by (simp_all add: needsOptimization_def)

lemma optimizeMoney_canonical:
  assumes b: "0 \<le> g" "0 \<le> s" "s < 10" "0 \<le> c" "c < 10" "0 \<le> k" "k < 10"
    and safe: "g * 1000 + s * 100 + c * 10 + k < 2 ^ 53"
  shows "optimizeMoney \<lparr>gold = Some g, silver = Some s, copper = Some c, nickel = Some k\<rparr>
         = \<lparr>gold = Some g, silver = Some s, copper = Some c, nickel = Some k\<rparr>"
proof -
  define n where "n = g * 1000 + s * 100 + c * 10 + k"
  have n0: "0 \<le> n" using b by (simp add: n_def)
  have n1: "n < 2 ^ 53" using safe by (simp only: n_def)
  have tb: "toBaseUnit \<lparr>gold = Some g, silver = Some s, copper = Some c, nickel = Some k\<rparr> = n"
    unfolding n_def using b safe by (intro toBaseUnit_exact_nonneg) simp_all
  have low: "0 \<le> s * 100 + c * 10 + k" "s * 100 + c * 10 + k < 1000"
    using b by simp_all
  have g': "n div 1000 = g" "n mod 1000 = s * 100 + c * 10 + k"
    using low by (simp_all add: n_def add.assoc)
  have low2: "0 \<le> c * 10 + k" "c * 10 + k < 100" using b by simp_all
  have s': "n mod 1000 div 100 = s" "n mod 1000 mod 100 = c * 10 + k"
    using low2 by (simp_all add: g'(2) add.assoc)
  have m100: "n mod 100 = c * 10 + k"
    using s'(2) by (simp add: mod_mod_cancel)
  have c': "n mod 100 div 10 = c" "n mod 100 mod 10 = k"
    using b by (simp_all add: m100)
  have m10: "n mod 10 = k"
    using c'(2) by (simp add: mod_mod_cancel)
  have "optimizeMoney \<lparr>gold = Some g, silver = Some s, copper = Some c, nickel = Some k\<rparr>
      = fromBaseUnit n"
    by (simp only: optimizeMoney_def tb Let_def)
  also have "\<dots> = \<lparr>gold = Some g, silver = Some s, copper = Some c, nickel = Some k\<rparr>"
    by (simp only: fromBaseUnit_safe [OF n0 n1] g'(1) s'(1) c'(1) m10)
  finally show ?thesis .
qed

text \<open>
  C10, as the script behaves. For every money record \<open>m\<close> with all four fields present
  whose coins are worth less than \<open>2 ^ 53\<close> base units, if \<open>needsOptimization m\<close> is
  false then \<open>optimizeMoney m = m\<close>.
\<close>

theorem optimizeMoney_fixpoint:
  assumes "m = \<lparr>gold = Some g, silver = Some s, copper = Some c, nickel = Some k\<rparr>"
    and "\<not> needsOptimization m"
    and "g * 1000 + s * 100 + c * 10 + k < 2 ^ 53"
  shows "optimizeMoney m = m"
proof -
  have b: "0 \<le> g" "0 \<le> s" "s < 10" "0 \<le> c" "c < 10" "0 \<le> k" "k < 10"
    using assms(1,2) by (auto simp add: needsOptimization_def split: if_splits)
  show ?thesis
    unfolding assms(1) using b assms(3) by (rule optimizeMoney_canonical)
qed

theorem optimizeMoney_fixpoint_witness:
  "\<not> needsOptimization \<lparr>gold = Some 12, silver = Some 3, copper = Some 0, nickel = Some 9\<rparr>
   \<and> (12::int) * 1000 + 3 * 100 + 0 * 10 + 9 < 2 ^ 53
   \<and> optimizeMoney \<lparr>gold = Some 12, silver = Some 3, copper = Some 0, nickel = Some 9\<rparr>
     = \<lparr>gold = Some 12, silver = Some 3, copper = Some 0, nickel = Some 9\<rparr>"
proof -
  have h: "\<not> needsOptimization \<lparr>gold = Some 12, silver = Some 3, copper = Some 0, nickel = Some 9\<rparr>"
    by (simp add: needsOptimization_def)
  have s: "(12::int) * 1000 + 3 * 100 + 0 * 10 + 9 < 2 ^ 53" by simp
  show ?thesis
    using h s optimizeMoney_fixpoint [OF refl h s] by simp
qed

text \<open>
  C10 as stated (for every record with all four fields present) fails beyond the safe
  integers: the purse of 9007199254741 gold and 1 nickel needs no optimization, but its
  total rounds to 9007199254741000 and \<open>optimizeMoney\<close> drops the nickel.
\<close>

theorem optimizeMoney_fixpoint_counterexample:
  "\<not> needsOptimization
        \<lparr>gold = Some 9007199254741, silver = Some 0, copper = Some 0, nickel = Some 1\<rparr>
   \<and> optimizeMoney \<lparr>gold = Some 9007199254741, silver = Some 0, copper = Some 0, nickel = Some 1\<rparr>
       = \<lparr>gold = Some 9007199254741, silver = Some 0, copper = Some 0, nickel = Some 0\<rparr>
   \<and> optimizeMoney \<lparr>gold = Some 9007199254741, silver = Some 0, copper = Some 0, nickel = Some 1\<rparr>
       \<noteq> \<lparr>gold = Some 9007199254741, silver = Some 0, copper = Some 0, nickel = Some 1\<rparr>"
proof -
  have t: "toBaseUnit \<lparr>gold = Some 9007199254741, silver = Some 0, copper = Some 0,
      nickel = Some 1\<rparr> = 9007199254741000"
    by code_simp
  have g: "floor_div 9007199254741000 1000 = 9007199254741"
    by code_simp
  have "optimizeMoney \<lparr>gold = Some 9007199254741, silver = Some 0, copper = Some 0,
      nickel = Some 1\<rparr>
       = \<lparr>gold = Some 9007199254741, silver = Some 0, copper = Some 0, nickel = Some 0\<rparr>"
    by (simp add: optimizeMoney_def t fromBaseUnit_nonneg g)
  then show ?thesis
    by (simp add: needsOptimization_def)
qed

section \<open>Properties of the coalescer and the apply-step\<close>

subsection \<open>The marker stops the hook\<close>

lemma updateActorHook_marked:
  "truthy (gdsa_autoconvert opts) \<Longrightarrow> updateActorHook actorId a ud opts w = w"
  by (simp add: updateActorHook_def)

lemma truthy_autoconvert_options: "truthy (gdsa_autoconvert autoconvert_options)"
  by (simp add: truthy_def autoconvert_options_def)

lemma actor_update_autoconvert:
  "actor_update actorId a m autoconvert_options w =
     w\<lparr>actors := (actors w)(actorId \<mapsto> a\<lparr>actor_money := m\<rparr>),
       effects := effects w @ [Update actorId m autoconvert_options]\<rparr>"
  by (simp add: actor_update_def Let_def updateActorHook_marked truthy_autoconvert_options)

lemma scheduleConversion_unfold:
  "scheduleConversion actorId w =
     w\<lparr>pendingTimeouts :=
         (case updateTimers w actorId of
            Some h \<Rightarrow> (pendingTimeouts w)(h := None)
          | None \<Rightarrow> pendingTimeouts w)(nextTimeout w \<mapsto> actorId),
       nextTimeout := Suc (nextTimeout w),
       updateTimers := (updateTimers w)(actorId \<mapsto> nextTimeout w)\<rparr>"
  by (simp add: scheduleConversion_def setTimeout_def clearTimeout_def Let_def
      split: option.splits)

lemma scheduleConversion_changes: "scheduleConversion actorId w \<noteq> w"
proof
  assume "scheduleConversion actorId w = w"
  then have "nextTimeout (scheduleConversion actorId w) = nextTimeout w" by simp
  then show False by (simp add: scheduleConversion_unfold)
qed

subsection \<open>What the apply-step does to the timers\<close>

lemma performConversion_timers:
  "updateTimers (performConversion actorId manual w) = (updateTimers w)(actorId := None)"
  "pendingTimeouts (performConversion actorId manual w) = pendingTimeouts w"
  "nextTimeout (performConversion actorId manual w) = nextTimeout w"
  by (simp_all add: performConversion_def Let_def actor_update_autoconvert notify_def
      split: option.splits)

lemma performConversion_auto_eq:
  "performConversion_auto actorId w = performConversion actorId False w"
  by (simp add: performConversion_auto_def performConversion_def Let_def split: option.splits)

subsection \<open>The invariant of the timers\<close>

lemma timers_ok_loaded: "timers_ok (loaded acts notifications sys)"
  by (simp add: timers_ok_def loaded_def)

lemma no_orphans_loaded: "no_orphans (loaded acts notifications sys)"
  by (simp add: no_orphans_def loaded_def)

lemma scheduleConversion_fields:
  "updateTimers (scheduleConversion actorId w) a =
     (if a = actorId then Some (nextTimeout w) else updateTimers w a)"
  "pendingTimeouts (scheduleConversion actorId w) h =
     (if h = nextTimeout w then Some actorId
      else if updateTimers w actorId = Some h then None
      else pendingTimeouts w h)"
  "nextTimeout (scheduleConversion actorId w) = Suc (nextTimeout w)"
  by (simp_all add: scheduleConversion_unfold split: option.splits)

lemma timers_ok_fresh:
  assumes "timers_ok w"
  shows "pendingTimeouts w (nextTimeout w) = None"
proof (cases "pendingTimeouts w (nextTimeout w)")
  case None
  then show ?thesis .
next
  case (Some a)
  then have "nextTimeout w < nextTimeout w"
    using assms unfolding timers_ok_def by blast
  then show ?thesis by simp
qed

lemma timers_ok_scheduleConversion:
  assumes "timers_ok w"
  shows "timers_ok (scheduleConversion actorId w)"
proof -
  have tab: "\<And>a h. updateTimers w a = Some h \<Longrightarrow> pendingTimeouts w h = Some a"
    and old: "\<And>h a. pendingTimeouts w h = Some a \<Longrightarrow> h < nextTimeout w"
    using assms unfolding timers_ok_def by blast+
  have p1: "pendingTimeouts (scheduleConversion actorId w) h = Some a"
    if "updateTimers (scheduleConversion actorId w) a = Some h" for a h
  proof (cases "a = actorId")
    case True
    then show ?thesis using that by (simp add: scheduleConversion_fields)
  next
    case False
    then have t: "updateTimers w a = Some h"
      using that by (simp add: scheduleConversion_fields)
    have ph: "pendingTimeouts w h = Some a" using tab [OF t] .
    have "h \<noteq> nextTimeout w" using old [OF ph] by simp
    moreover have "updateTimers w actorId \<noteq> Some h"
    proof
      assume "updateTimers w actorId = Some h"
      then have "pendingTimeouts w h = Some actorId" by (rule tab)
      then show False using ph False by simp
    qed
    ultimately show ?thesis using ph by (simp add: scheduleConversion_fields)
  qed
  have p2: "h < nextTimeout (scheduleConversion actorId w)"
    if "pendingTimeouts (scheduleConversion actorId w) h = Some a" for a h
  proof (cases "h = nextTimeout w")
    case True
    then show ?thesis by (simp add: scheduleConversion_fields)
  next
    case False
    then have "pendingTimeouts w h = Some a"
      using that by (simp add: scheduleConversion_fields split: if_splits)
    then have "h < nextTimeout w" by (rule old)
    then show ?thesis by (simp add: scheduleConversion_fields)
  qed
  show ?thesis
    unfolding timers_ok_def using p1 p2 by blast
qed

lemma no_orphans_scheduleConversion:
  assumes "timers_ok w" "no_orphans w"
  shows "no_orphans (scheduleConversion actorId w)"
proof -
  have orph: "\<And>h a. pendingTimeouts w h = Some a \<Longrightarrow> updateTimers w a = Some h"
    using assms(2) unfolding no_orphans_def by blast
  have "updateTimers (scheduleConversion actorId w) a = Some h"
    if "pendingTimeouts (scheduleConversion actorId w) h = Some a" for a h
  proof (cases "h = nextTimeout w")
    case True
    then show ?thesis using that by (simp add: scheduleConversion_fields)
  next
    case False
    then have ne: "updateTimers w actorId \<noteq> Some h" and ph: "pendingTimeouts w h = Some a"
      using that by (simp_all add: scheduleConversion_fields split: if_splits)
    have t: "updateTimers w a = Some h" using orph [OF ph] .
    then have "a \<noteq> actorId" using ne by auto
    then show ?thesis using t by (simp add: scheduleConversion_fields)
  qed
  then show ?thesis unfolding no_orphans_def by blast
qed

lemma timers_ok_performConversion:
  assumes "timers_ok w"
  shows "timers_ok (performConversion actorId manual w)"
  using assms unfolding timers_ok_def by (simp add: performConversion_timers)

lemma fire_timers:
  assumes "pendingTimeouts w h = Some actorId"
  shows "updateTimers (fire h w) = (updateTimers w)(actorId := None)"
    and "pendingTimeouts (fire h w) = (pendingTimeouts w)(h := None)"
    and "nextTimeout (fire h w) = nextTimeout w"
  using assms by (simp_all add: fire_def performConversion_timers)

lemma fire_idle: "pendingTimeouts w h = None \<Longrightarrow> fire h w = w"
  by (simp add: fire_def)

lemma timers_ok_fire:
  assumes "timers_ok w"
  shows "timers_ok (fire h w)"
proof (cases "pendingTimeouts w h")
  case None
  then show ?thesis using assms by (simp add: fire_idle)
next
  case (Some actorId)
  have tab: "\<And>a h. updateTimers w a = Some h \<Longrightarrow> pendingTimeouts w h = Some a"
    and old: "\<And>h a. pendingTimeouts w h = Some a \<Longrightarrow> h < nextTimeout w"
    using assms unfolding timers_ok_def by blast+
  have p1: "pendingTimeouts (fire h w) h' = Some a"
    if "updateTimers (fire h w) a = Some h'" for a h'
  proof -
    have ne: "a \<noteq> actorId" and t: "updateTimers w a = Some h'"
      using that by (simp_all add: fire_timers [OF Some] split: if_splits)
    have ph: "pendingTimeouts w h' = Some a" using tab [OF t] .
    then have "h' \<noteq> h" using Some ne by auto
    then show ?thesis using ph by (simp add: fire_timers [OF Some])
  qed
  have p2: "h' < nextTimeout (fire h w)"
    if "pendingTimeouts (fire h w) h' = Some a" for a h'
  proof -
    have "pendingTimeouts w h' = Some a"
      using that by (simp add: fire_timers [OF Some] split: if_splits)
    then show ?thesis using old by (simp add: fire_timers [OF Some])
  qed
  show ?thesis unfolding timers_ok_def using p1 p2 by blast
qed

lemma no_orphans_fire:
  assumes "no_orphans w"
  shows "no_orphans (fire h w)"
proof (cases "pendingTimeouts w h")
  case None
  then show ?thesis using assms by (simp add: fire_idle)
next
  case (Some actorId)
  have orph: "\<And>h a. pendingTimeouts w h = Some a \<Longrightarrow> updateTimers w a = Some h"
    using assms unfolding no_orphans_def by blast
  have "updateTimers (fire h w) a = Some h'"
    if "pendingTimeouts (fire h w) h' = Some a" for a h'
  proof -
    have ne: "h' \<noteq> h" and ph: "pendingTimeouts w h' = Some a"
      using that by (simp_all add: fire_timers [OF Some] split: if_splits)
    have t: "updateTimers w a = Some h'" using orph [OF ph] .
    have "updateTimers w actorId = Some h" using orph [OF Some] .
    then have "a \<noteq> actorId" using t ne by auto
    then show ?thesis using t by (simp add: fire_timers [OF Some])
  qed
  then show ?thesis unfolding no_orphans_def by blast
qed

lemma updateActorHook_cases:
  "updateActorHook actorId a ud opts w = w
   \<or> updateActorHook actorId a ud opts w = scheduleConversion actorId w"
  by (simp add: updateActorHook_def)

lemma timers_ok_actors_upd: "timers_ok (w\<lparr>actors := x\<rparr>) = timers_ok w"
  by (simp add: timers_ok_def)

lemma no_orphans_actors_upd: "no_orphans (w\<lparr>actors := x\<rparr>) = no_orphans w"
  by (simp add: no_orphans_def)

lemma timers_ok_step:
  assumes "timers_ok w"
  shows "timers_ok (step e w)"
proof (cases e)
  case (UpdateActor actorId a ud opts)
  show ?thesis
    using updateActorHook_cases [of actorId a ud opts "w\<lparr>actors := (actors w)(actorId \<mapsto> a)\<rparr>"]
      timers_ok_scheduleConversion [of "w\<lparr>actors := (actors w)(actorId \<mapsto> a)\<rparr>" actorId] assms
    by (auto simp: UpdateActor timers_ok_actors_upd)
next
  case (DeleteActor actorId)
  then show ?thesis using assms by (simp add: timers_ok_actors_upd)
next
  case (TimeoutFires h)
  then show ?thesis using assms by (simp add: timers_ok_fire)
next
  case (ManualExchange actorId)
  then show ?thesis using assms by (simp add: timers_ok_performConversion)
qed

lemma no_orphans_step:
  assumes "timers_ok w" "no_orphans w" "\<not> is_manual e"
  shows "no_orphans (step e w)"
proof (cases e)
  case (UpdateActor actorId a ud opts)
  show ?thesis
    using updateActorHook_cases [of actorId a ud opts "w\<lparr>actors := (actors w)(actorId \<mapsto> a)\<rparr>"]
      no_orphans_scheduleConversion [of "w\<lparr>actors := (actors w)(actorId \<mapsto> a)\<rparr>" actorId] assms
    by (auto simp: UpdateActor timers_ok_actors_upd no_orphans_actors_upd)
next
  case (DeleteActor actorId)
  then show ?thesis using assms by (simp add: no_orphans_actors_upd)
next
  case (TimeoutFires h)
  then show ?thesis using assms by (simp add: no_orphans_fire)
next
  case (ManualExchange actorId)
  then show ?thesis using assms by simp
qed

lemma timers_ok_run: "timers_ok w \<Longrightarrow> timers_ok (run evs w)"
  by (induction evs arbitrary: w) (simp_all add: timers_ok_step)

lemma no_orphans_run:
  "timers_ok w \<Longrightarrow> no_orphans w \<Longrightarrow> \<forall>e\<in>set evs. \<not> is_manual e \<Longrightarrow> no_orphans (run evs w)"
  by (induction evs arbitrary: w) (simp_all add: timers_ok_step no_orphans_step)

lemma scheduleConversion_reschedules:
  assumes "timers_ok w"
  shows "(\<forall>h. updateTimers w actorId = Some h \<longrightarrow>
            pendingTimeouts (scheduleConversion actorId w) h = None)"
    and "updateTimers (scheduleConversion actorId w) actorId = Some (nextTimeout w)"
    and "pendingTimeouts (scheduleConversion actorId w) (nextTimeout w) = Some actorId"
    and "pendingTimeouts w (nextTimeout w) = None"
proof -
  show fresh: "pendingTimeouts w (nextTimeout w) = None"
    using assms by (rule timers_ok_fresh)
  have "pendingTimeouts (scheduleConversion actorId w) h = None"
    if t: "updateTimers w actorId = Some h" for h
  proof -
    have "pendingTimeouts w h = Some actorId"
      using assms t unfolding timers_ok_def by blast
    then have "h \<noteq> nextTimeout w" using fresh by auto
    then show ?thesis using t by (simp add: scheduleConversion_fields)
  qed
  then show "\<forall>h. updateTimers w actorId = Some h \<longrightarrow>
            pendingTimeouts (scheduleConversion actorId w) h = None"
    by blast
  show "updateTimers (scheduleConversion actorId w) actorId = Some (nextTimeout w)"
    by (simp add: scheduleConversion_fields)
  show "pendingTimeouts (scheduleConversion actorId w) (nextTimeout w) = Some actorId"
    by (simp add: scheduleConversion_fields)
qed

subsection \<open>The claims about the apply-step\<close>

lemma negative_total_needsOptimization:
  assumes "toBaseUnit m < 0"
  shows "needsOptimization m"
proof (rule ccontr)
  assume "\<not> needsOptimization m"
  then have "0 \<le> or_zero (gold m)" "0 \<le> or_zero (silver m)" "0 \<le> or_zero (copper m)"
    "0 \<le> or_zero (nickel m)"
    by (auto simp add: needsOptimization_def Let_def split: if_splits)
  then have "0 \<le> toBaseUnit m"
    by (rule toBaseUnit_nonneg)
  then show False using assms by simp
qed

lemma performConversion_negative:
  assumes "actors w actorId = Some a"
    and "toBaseUnit (optimizeMoney (actor_money a)) < 0"
  shows "performConversion actorId manual w =
     w\<lparr>updateTimers := (updateTimers w)(actorId := None),
       actors := (actors w)(actorId \<mapsto> a\<lparr>actor_money := zero_money\<rparr>),
       effects := effects w
         @ (if showNotifications w \<or> manual then [Notification Warn_InsufficientFunds] else [])
         @ [Update actorId zero_money autoconvert_options]\<rparr>"
proof -
  have "toBaseUnit (actor_money a) < 0"
    using assms(2) toBaseUnit_optimizeMoney_nonneg [of "actor_money a"] by linarith
  then have need: "needsOptimization (actor_money a)"
    by (rule negative_total_needsOptimization)
  show ?thesis
    using assms need
    by (simp add: performConversion_def Let_def actor_update_autoconvert notify_def)
qed

text \<open>
  C4. Whenever the apply-step computes an optimized record whose base-unit total is
  negative, it writes the all-zero money record back to the actor with the marker
  \<open>gdsa_autoconvert\<close>, issues the insufficient-funds warning first if notifications are
  switched on or the step was triggered manually, and makes no other write. The older
  script does the same, without the manual trigger.
\<close>

theorem performConversion_insufficient_funds:
  assumes "actors w actorId = Some a"
    and "toBaseUnit (optimizeMoney (actor_money a)) < 0"
  shows "performConversion actorId manual w =
     w\<lparr>updateTimers := (updateTimers w)(actorId := None),
       actors := (actors w)(actorId \<mapsto> a\<lparr>actor_money := zero_money\<rparr>),
       effects := effects w
         @ (if showNotifications w \<or> manual then [Notification Warn_InsufficientFunds] else [])
         @ [Update actorId zero_money autoconvert_options]\<rparr>
   \<and> performConversion_auto actorId w =
     w\<lparr>updateTimers := (updateTimers w)(actorId := None),
       actors := (actors w)(actorId \<mapsto> a\<lparr>actor_money := zero_money\<rparr>),
       effects := effects w
         @ (if showNotifications w then [Notification Warn_InsufficientFunds] else [])
         @ [Update actorId zero_money autoconvert_options]\<rparr>"
  using performConversion_negative [OF assms, of manual]
    performConversion_negative [OF assms, of False]
  by (simp add: performConversion_auto_eq)

lemma scenario_C_total:
  "toBaseUnit (optimizeMoney (actor_money (player (coins 0 0 0 (- 5))))) < 0"
proof -
  have "toBaseUnit (coins 0 0 0 (- 5)) = - 5"
    by (simp add: coins_def toBaseUnit_def js_mul_def js_add_def round_int_def rates)
  then have "optimizeMoney (coins 0 0 0 (- 5)) = fromBaseUnit (- 5)"
    by (simp add: optimizeMoney_def)
  then show ?thesis
    by (simp add: player_def fromBaseUnit_minus_five toBaseUnit_small)
qed

theorem performConversion_insufficient_funds_witness:
  "actors (world_of (coins 0 0 0 (- 5)) True) ''a1'' = Some (player (coins 0 0 0 (- 5)))
   \<and> toBaseUnit (optimizeMoney (actor_money (player (coins 0 0 0 (- 5))))) < 0
   \<and> effects (performConversion ''a1'' False (world_of (coins 0 0 0 (- 5)) True)) =
       [Notification Warn_InsufficientFunds, Update ''a1'' zero_money autoconvert_options]
   \<and> actors (performConversion ''a1'' False (world_of (coins 0 0 0 (- 5)) True)) ''a1'' =
       Some (player zero_money)
   \<and> effects (performConversion_auto ''a1'' (world_of (coins 0 0 0 (- 5)) True)) =
       [Notification Warn_InsufficientFunds, Update ''a1'' zero_money autoconvert_options]"
proof -
  have h1: "actors (world_of (coins 0 0 0 (- 5)) True) ''a1'' = Some (player (coins 0 0 0 (- 5)))"
    by (simp add: world_of_def loaded_def)
  show ?thesis
    using h1 scenario_C_total
      performConversion_insufficient_funds [OF h1 scenario_C_total, of False]
    by (simp add: world_of_def loaded_def player_def)
qed

text \<open>
  C3 is about a manual trigger on a purse that is already canonical: it should write
  nothing and report "already optimized". In the script the test that guards the
  write starts with \<open>manual ||\<close>, so a manual trigger always takes the writing branch and
  the branch that reports "already optimized" is never reached. On the canonical purse
  of one gold coin, the manual trigger writes the purse back and reports it as
  optimized.
\<close>

theorem performConversion_manual_canonical_writes:
  "effects (performConversion ''a1'' True (world_of (coins 1 0 0 0) False)) =
     [Update ''a1'' (coins 1 0 0 0) autoconvert_options,
      Notification (Info_OptimizedNotification ''Alrik'' (coins 1 0 0 0))]"
proof -
  have opt: "optimizeMoney (coins 1 0 0 0) = coins 1 0 0 0"
    unfolding coins_def by (rule optimizeMoney_canonical) simp_all
  have tot: "toBaseUnit (coins 1 0 0 0) = 1000"
    by (simp add: coins_def toBaseUnit_def js_mul_def js_add_def round_int_def rates)
  show ?thesis
    by (simp add: performConversion_def Let_def world_of_def loaded_def player_def opt tot
        actor_update_autoconvert notify_def)
qed

theorem performConversion_manual_canonical_writes_witness:
  "Update ''a1'' (coins 1 0 0 0) autoconvert_options
     \<in> set (effects (performConversion ''a1'' True (world_of (coins 1 0 0 0) False)))
   \<and> Notification Info_AlreadyOptimized
     \<notin> set (effects (performConversion ''a1'' True (world_of (coins 1 0 0 0) False)))"
  using performConversion_manual_canonical_writes by simp

lemma canonical_purse_is_fixpoint:
  "\<not> needsOptimization (coins 1 0 0 0)" "optimizeMoney (coins 1 0 0 0) = coins 1 0 0 0"
proof -
  show "\<not> needsOptimization (coins 1 0 0 0)"
    by (simp add: needsOptimization_def coins_def)
  show "optimizeMoney (coins 1 0 0 0) = coins 1 0 0 0"
    unfolding coins_def by (rule optimizeMoney_canonical) simp_all
qed

text \<open>The "already optimized" message is never issued, whatever the trigger.\<close>

lemma performConversion_effects:
  "\<exists>new. effects (performConversion actorId manual w) = effects w @ new
         \<and> Notification Info_AlreadyOptimized \<notin> set new"
  by (simp add: performConversion_def Let_def actor_update_autoconvert notify_def
      split: option.splits)

subsection \<open>The claims about the coalescer\<close>

text \<open>
  Without manual exchanges the timers behave as a debounce should. In every state
  reached from the loaded script by update notifications, actor deletions and elapsing
  timeouts, the pending timeouts of an actor are exactly its entry in \<open>updateTimers\<close>,
  so at most one callback is outstanding per actor. (With manual exchanges only the
  first, third and fourth part below remain.) \<open>scheduleConversion\<close> on an actor that has
  an entry cancels that timeout and installs a fresh one in its place, and a timeout
  that elapses removes the entry of its actor.
\<close>

lemma timers_of_reachable_world:
  assumes "w = run evs (loaded acts notifications sys)"
  shows "(\<forall>actorId h. updateTimers w actorId = Some h \<longrightarrow> pendingTimeouts w h = Some actorId)
   \<and> ((\<forall>e\<in>set evs. \<not> is_manual e) \<longrightarrow>
        (\<forall>actorId h h'. pendingTimeouts w h = Some actorId \<and> pendingTimeouts w h' = Some actorId
            \<longrightarrow> h = h' \<and> updateTimers w actorId = Some h))
   \<and> (\<forall>actorId.
        (\<forall>h. updateTimers w actorId = Some h \<longrightarrow>
              pendingTimeouts (scheduleConversion actorId w) h = None)
        \<and> updateTimers (scheduleConversion actorId w) actorId = Some (nextTimeout w)
        \<and> pendingTimeouts (scheduleConversion actorId w) (nextTimeout w) = Some actorId
        \<and> pendingTimeouts w (nextTimeout w) = None)
   \<and> (\<forall>h actorId. pendingTimeouts w h = Some actorId \<longrightarrow>
        updateTimers (fire h w) actorId = None \<and> pendingTimeouts (fire h w) h = None)"
proof -
  have ok: "timers_ok w"
    unfolding assms by (rule timers_ok_run) (rule timers_ok_loaded)
  have a: "\<forall>actorId h. updateTimers w actorId = Some h \<longrightarrow> pendingTimeouts w h = Some actorId"
    using ok unfolding timers_ok_def by blast
  have b: "(\<forall>e\<in>set evs. \<not> is_manual e) \<longrightarrow>
        (\<forall>actorId h h'. pendingTimeouts w h = Some actorId \<and> pendingTimeouts w h' = Some actorId
            \<longrightarrow> h = h' \<and> updateTimers w actorId = Some h)"
  proof
    assume "\<forall>e\<in>set evs. \<not> is_manual e"
    then have "no_orphans w"
      unfolding assms by (intro no_orphans_run timers_ok_loaded no_orphans_loaded)
    then have orph: "\<And>h a. pendingTimeouts w h = Some a \<Longrightarrow> updateTimers w a = Some h"
      unfolding no_orphans_def by blast
    show "\<forall>actorId h h'. pendingTimeouts w h = Some actorId \<and> pendingTimeouts w h' = Some actorId
            \<longrightarrow> h = h' \<and> updateTimers w actorId = Some h"
    proof (intro allI impI)
      fix actorId h h'
      assume p: "pendingTimeouts w h = Some actorId \<and> pendingTimeouts w h' = Some actorId"
      then have "updateTimers w actorId = Some h" "updateTimers w actorId = Some h'"
        using orph by blast+
      then show "h = h' \<and> updateTimers w actorId = Some h" by simp
    qed
  qed
  have c: "\<forall>actorId.
        (\<forall>h. updateTimers w actorId = Some h \<longrightarrow>
              pendingTimeouts (scheduleConversion actorId w) h = None)
        \<and> updateTimers (scheduleConversion actorId w) actorId = Some (nextTimeout w)
        \<and> pendingTimeouts (scheduleConversion actorId w) (nextTimeout w) = Some actorId
        \<and> pendingTimeouts w (nextTimeout w) = None"
    using scheduleConversion_reschedules [OF ok] by blast
  have d: "\<forall>h actorId. pendingTimeouts w h = Some actorId \<longrightarrow>
        updateTimers (fire h w) actorId = None \<and> pendingTimeouts (fire h w) h = None"
    by (simp add: fire_timers)
  show ?thesis
    by (intro conjI) (rule a b c d)+
qed

lemma money_changed_not_manual: "\<not> is_manual (money_changed m)"
  by (simp add: money_changed_def)

lemma step_money_changed:
  "step (money_changed m) w =
     scheduleConversion ''a1'' (w\<lparr>actors := (actors w)(''a1'' \<mapsto> player m)\<rparr>)"
  if "system_id w = ''gdsa''"
  using that
  by (simp add: money_changed_def updateActorHook_def truthy_def player_def
      hasProperty_system_money_def)

lemma burst_of_two:
  "updateTimers (run [money_changed (coins 0 0 0 23), money_changed (coins 0 0 0 23)]
                 (loaded Map.empty True ''gdsa'')) ''a1'' = Some 2"
  "pendingTimeouts (run [money_changed (coins 0 0 0 23), money_changed (coins 0 0 0 23)]
                 (loaded Map.empty True ''gdsa'')) 1 = None"
  by (simp_all add: step_money_changed scheduleConversion_unfold loaded_def)

lemma performConversion_settings:
  "system_id (performConversion actorId manual w) = system_id w"
  "showNotifications (performConversion actorId manual w) = showNotifications w"
  by (simp_all add: performConversion_def Let_def actor_update_autoconvert notify_def
      split: option.splits)

lemma scheduleConversion_settings:
  "system_id (scheduleConversion actorId w) = system_id w"
  by (simp add: scheduleConversion_unfold)

text \<open>
  C8 says that in every reachable state an actor has at most one pending timer, because
  \<open>scheduleConversion\<close> cancels the pending one before it installs the next. The
  script breaks this after a manual exchange: \<open>performConversion\<close> deletes the entry of
  the actor from \<open>updateTimers\<close> without calling \<open>clearTimeout\<close>, so the next
  \<open>scheduleConversion\<close> finds no entry, cancels nothing and installs a second timeout.
  After an edit, a manual exchange and another edit of the purse of \<open>a1\<close>, the timeouts 1
  and 2 are both pending for \<open>a1\<close> and only the second is in the table.
\<close>

theorem manual_exchange_leaves_timeout:
  "pendingTimeouts (run [money_changed (coins 0 0 0 3), ManualExchange ''a1'',
                      money_changed (coins 0 0 0 3)]
                 (loaded Map.empty True ''gdsa'')) 1 = Some ''a1''
   \<and> pendingTimeouts (run [money_changed (coins 0 0 0 3), ManualExchange ''a1'',
                      money_changed (coins 0 0 0 3)]
                 (loaded Map.empty True ''gdsa'')) 2 = Some ''a1''
   \<and> updateTimers (run [money_changed (coins 0 0 0 3), ManualExchange ''a1'',
                      money_changed (coins 0 0 0 3)]
                 (loaded Map.empty True ''gdsa'')) ''a1'' = Some 2"
  by (simp add: step_money_changed scheduleConversion_fields scheduleConversion_settings
      performConversion_timers performConversion_settings loaded_def)

theorem manual_exchange_leaves_timeout_witness:
  "pendingTimeouts (run [money_changed (coins 0 0 0 3), ManualExchange ''a1'',
                      money_changed (coins 0 0 0 3)]
                 (loaded Map.empty True ''gdsa'')) 1
   = pendingTimeouts (run [money_changed (coins 0 0 0 3), ManualExchange ''a1'',
                      money_changed (coins 0 0 0 3)]
                 (loaded Map.empty True ''gdsa'')) 2"
  using manual_exchange_leaves_timeout by simp

text \<open>The manual exchange alone already leaves the timeout pending outside the table.\<close>

lemma manual_exchange_orphans_timeout:
  "pendingTimeouts (run [money_changed (coins 0 0 0 3), ManualExchange ''a1'']
                 (loaded Map.empty True ''gdsa'')) 1 = Some ''a1''"
  "updateTimers (run [money_changed (coins 0 0 0 3), ManualExchange ''a1'']
                 (loaded Map.empty True ''gdsa'')) ''a1'' = None"
  by (simp_all add: step_money_changed scheduleConversion_fields scheduleConversion_settings
      performConversion_timers performConversion_settings loaded_def)

text \<open>
  C9. A change notification whose write options carry the marker \<open>gdsa_autoconvert\<close>
  leaves the world as it is: \<open>scheduleConversion\<close>, which always changes the world, is
  not called. So an update written with the marker, announced back to the hook, sets no
  timer, and the apply-step, whose writes all carry the marker, sets none either.
\<close>

theorem marked_update_never_schedules:
  assumes "truthy (gdsa_autoconvert opts)"
  shows "updateActorHook actorId a ud opts w = w
   \<and> updateActorHook actorId a ud opts w \<noteq> scheduleConversion actorId w
   \<and> updateTimers (actor_update actorId a m opts w) = updateTimers w
   \<and> pendingTimeouts (actor_update actorId a m opts w) = pendingTimeouts w
   \<and> nextTimeout (actor_update actorId a m opts w) = nextTimeout w
   \<and> pendingTimeouts (performConversion actorId manual w) = pendingTimeouts w
   \<and> nextTimeout (performConversion actorId manual w) = nextTimeout w"
proof -
  have h: "updateActorHook actorId a ud opts w = w"
    using assms by (rule updateActorHook_marked)
  have "updateActorHook actorId a ud opts w \<noteq> scheduleConversion actorId w"
    using scheduleConversion_changes [of actorId w] by (simp add: h)
  moreover have "updateTimers (actor_update actorId a m opts w) = updateTimers w"
    "pendingTimeouts (actor_update actorId a m opts w) = pendingTimeouts w"
    "nextTimeout (actor_update actorId a m opts w) = nextTimeout w"
    using assms by (simp_all add: actor_update_def Let_def updateActorHook_marked)
  ultimately show ?thesis
    using h by (simp add: performConversion_timers)
qed

theorem marked_update_never_schedules_witness:
  "truthy (gdsa_autoconvert autoconvert_options)
   \<and> updateActorHook ''a1'' (player (coins 0 0 2 3)) \<lparr>system_money = Some (coins 0 0 2 3)\<rparr>
        autoconvert_options (world_of (coins 0 0 2 3) True) = world_of (coins 0 0 2 3) True
   \<and> nextTimeout (performConversion ''a1'' False (world_of (coins 0 0 0 23) True)) = 1"
  using marked_update_never_schedules [OF truthy_autoconvert_options,
      of "''a1''" "player (coins 0 0 2 3)" "\<lparr>system_money = Some (coins 0 0 2 3)\<rparr>"
         "world_of (coins 0 0 2 3) True"]
    marked_update_never_schedules [OF truthy_autoconvert_options,
      of "''a1''" _ _ "world_of (coins 0 0 0 23) True" _ False]
  by (simp add: truthy_autoconvert_options world_of_def loaded_def)

text \<open>Without the marker the same notification does set a timer.\<close>

lemma unmarked_update_schedules:
  "updateActorHook ''a1'' (player (coins 0 0 2 3)) \<lparr>system_money = Some (coins 0 0 2 3)\<rparr>
     \<lparr>gdsa_autoconvert = None\<rparr> (world_of (coins 0 0 2 3) True)
   = scheduleConversion ''a1'' (world_of (coins 0 0 2 3) True)"
  by (simp add: updateActorHook_def truthy_def player_def world_of_def loaded_def
      hasProperty_system_money_def)

text \<open>Every write of the apply-step carries the marker.\<close>

lemma performConversion_writes_marked:
  "\<exists>new. effects (performConversion actorId manual w) = effects w @ new
         \<and> (\<forall>i m opts. Update i m opts \<in> set new \<longrightarrow> i = actorId \<and> opts = autoconvert_options)"
  by (simp add: performConversion_def Let_def actor_update_autoconvert notify_def
      split: option.splits)

end
